theory Spec2Isabelle
  imports Main
begin

section \<open>The EC2 status logger (src/lambda/ec2\_status\_logger.py)\<close>

text \<open>
  The program is one function, \<open>lambda_handler(event, context)\<close>. It reads the
  environment variable \<open>LOG_BUCKET\<close>, calls \<open>ec2.describe_instances()\<close>, reads the
  UTC clock once, formats one line per instance and hands the joined lines to
  \<open>s3.put_object\<close>. Everything outside the function (the environment, the two boto3
  clients, the clock) is gathered in a record \<open>world\<close>; the handler returns the remote
  calls it issued, in order, together with its outcome: the exception it raised or the
  value it returned.

  Text is held as its UTF-8 byte sequence: a \<open>string\<close> here is the byte string that
  \<open>str.encode("utf-8")\<close> yields for the Python \<open>str\<close>. Concatenation, f-string
  interpolation of \<open>str\<close> values and \<open>str.join\<close> commute with that encoding, and the
  handler does nothing else with text.
\<close>

subsection \<open>Exceptions\<close>

text \<open>
  \<open>KeyError k\<close> is what \<open>d[k]\<close> raises on a missing key (also \<open>os.environ[k]\<close>).
  \<open>ClientError msg\<close> stands for whatever exception a boto3 call raises.
\<close>

datatype exn = KeyError string | ClientError string

subsection \<open>The response of \<open>describe_instances\<close>\<close>

text \<open>
  The response is a dict of dicts and lists. boto3 builds it from the service's output
  shape, so a key that is present holds a value of the documented type, while any key
  may be absent: each key is an optional field.
\<close>

record state_dict =
  Name :: "string option"

record instance_dict =
  InstanceId :: "string option"
  State :: "state_dict option"

record reservation_dict =
  Instances :: "instance_dict list option"

record response_dict =
  Reservations :: "reservation_dict list option"

text \<open>\<open>d.get(key, [])\<close> on an optional list-valued key.\<close>

definition get_or_empty :: "'a list option \<Rightarrow> 'a list" where
  "get_or_empty v = (case v of None \<Rightarrow> [] | Some xs \<Rightarrow> xs)"

subsection \<open>The clock and \<open>strftime\<close>\<close>

text \<open>
  A \<open>datetime\<close> as \<open>datetime.now(timezone.utc)\<close> returns it. \<open>is_datetime\<close> is the
  range check of the \<open>datetime\<close> constructor.
\<close>

record datetime =
  year :: nat
  month :: nat
  day :: nat
  hour :: nat
  minute :: nat
  second :: nat
  microsecond :: nat

definition is_leap :: "nat \<Rightarrow> bool" where
  "is_leap y = (y mod 4 = 0 \<and> (y mod 100 \<noteq> 0 \<or> y mod 400 = 0))"

definition days_in_month :: "nat \<Rightarrow> nat \<Rightarrow> nat" where
  "days_in_month y m =
     (if m = 2 then (if is_leap y then 29 else 28)
      else if m = 4 \<or> m = 6 \<or> m = 9 \<or> m = 11 then 30 else 31)"

definition is_datetime :: "datetime \<Rightarrow> bool" where
  "is_datetime d =
     (1 \<le> year d \<and> year d \<le> 9999 \<and> 1 \<le> month d \<and> month d \<le> 12 \<and>
      1 \<le> day d \<and> day d \<le> days_in_month (year d) (month d) \<and>
      hour d < 24 \<and> minute d < 60 \<and> second d < 60 \<and> microsecond d < 1000000)"

definition digit :: "nat \<Rightarrow> char" where
  "digit n = ''0123456789'' ! (n mod 10)"

text \<open>\<open>str(n)\<close> for a natural number.\<close>

fun decimal :: "nat \<Rightarrow> string" where
  "decimal n = (if n < 10 then [digit n] else decimal (n div 10) @ [digit n])"

declare decimal.simps [simp del]

text \<open>\<open>s.zfill(k)\<close> for a string without sign.\<close>

definition zfill :: "nat \<Rightarrow> string \<Rightarrow> string" where
  "zfill k s = replicate (k - length s) (CHR ''0'') @ s"

text \<open>
  The directives the handler's format uses. \<open>%Y\<close> is the year with century, padded to
  four digits as the Python documentation gives it (0001 ... 9999); C libraries differ
  in the padding below the year 1000, so the form of the timestamp is stated for
  four-digit years only. The other five are two-digit fields. An unknown directive is
  left as it stands.
\<close>

definition directive :: "char \<Rightarrow> datetime \<Rightarrow> string" where
  "directive c d =
     (if c = CHR ''Y'' then zfill 4 (decimal (year d))
      else if c = CHR ''m'' then zfill 2 (decimal (month d))
      else if c = CHR ''d'' then zfill 2 (decimal (day d))
      else if c = CHR ''H'' then zfill 2 (decimal (hour d))
      else if c = CHR ''M'' then zfill 2 (decimal (minute d))
      else if c = CHR ''S'' then zfill 2 (decimal (second d))
      else [CHR ''%'', c])"

fun strftime :: "string \<Rightarrow> datetime \<Rightarrow> string" where
  "strftime [] d = []"
| "strftime [c] d = [c]"
| "strftime (c # x # cs) d =
     (if c = CHR ''%'' then directive x d @ strftime cs d else c # strftime (x # cs) d)"

subsection \<open>The world of one invocation\<close>

text \<open>
  \<^item> \<open>environ\<close>: \<open>os.environ\<close>.
  \<^item> \<open>describe_instances\<close>: what \<open>ec2.describe_instances()\<close> does when called: it raises
    or returns a response.
  \<^item> \<open>utcnow k\<close>: what the \<open>k\<close>-th call of \<open>datetime.now(timezone.utc)\<close> in this
    invocation returns (the clock moves between calls).
  \<^item> \<open>put_object bucket key body\<close>: what \<open>s3.put_object(Bucket=, Key=, Body=)\<close> does when
    called: \<open>Some e\<close> when it raises \<open>e\<close>, \<open>None\<close> when it returns.
\<close>

record world =
  environ :: "string \<rightharpoonup> string"
  describe_instances :: "exn + response_dict"
  utcnow :: "nat \<Rightarrow> datetime"
  put_object :: "string \<Rightarrow> string \<Rightarrow> string \<Rightarrow> exn option"

text \<open>The remote calls an invocation issues, in the order it issues them.\<close>

datatype call = DescribeInstances | PutObject string string string

subsection \<open>The handler\<close>

text \<open>\<open>sep.join(lines)\<close>.\<close>

fun str_join :: "string \<Rightarrow> string list \<Rightarrow> string" where
  "str_join sep [] = []"
| "str_join sep [x] = x"
| "str_join sep (x # y # ys) = x @ sep @ str_join sep (y # ys)"

text \<open>\<open>s.encode("utf-8")\<close>: text is already held as its UTF-8 bytes.\<close>

definition encode_utf8 :: "string \<Rightarrow> string" where
  "encode_utf8 s = s"

text \<open>
  The inner loop, \<open>for inst in r.get("Instances", [])\<close>: the body reads
  \<open>inst["InstanceId"]\<close>, then \<open>inst["State"]\<close>, then \<open>["Name"]\<close> of that, each raising
  \<open>KeyError\<close> on a missing key, and appends one line to \<open>lines\<close>.
\<close>

fun instances_loop :: "string \<Rightarrow> instance_dict list \<Rightarrow> string list \<Rightarrow> exn + string list" where
  "instances_loop ts [] lines = Inr lines"
| "instances_loop ts (inst # insts) lines =
     (case InstanceId inst of
        None \<Rightarrow> Inl (KeyError ''InstanceId'')
      | Some iid \<Rightarrow>
          (case State inst of
             None \<Rightarrow> Inl (KeyError ''State'')
           | Some st \<Rightarrow>
               (case Name st of
                  None \<Rightarrow> Inl (KeyError ''Name'')
                | Some state \<Rightarrow>
                    instances_loop ts insts (lines @ [ts @ '' - '' @ iid @ '' - '' @ state]))))"

text \<open>The outer loop, \<open>for r in reservations\<close>.\<close>

fun reservations_loop ::
  "string \<Rightarrow> reservation_dict list \<Rightarrow> string list \<Rightarrow> exn + string list" where
  "reservations_loop ts [] lines = Inr lines"
| "reservations_loop ts (r # rs) lines =
     (case instances_loop ts (get_or_empty (Instances r)) lines of
        Inl e \<Rightarrow> Inl e
      | Inr lines' \<Rightarrow> reservations_loop ts rs lines')"

text \<open>
  \<open>lambda_handler\<close>, statement by statement. The result is the list of remote calls
  issued and the outcome: \<open>Inl e\<close> when the handler raises \<open>e\<close>, \<open>Inr v\<close> when it returns the
  dict \<open>v\<close> (here the one-entry dict \<open>{"count": n}\<close>, as a list of its items).
\<close>

definition lambda_handler ::
  "'event \<Rightarrow> 'context \<Rightarrow> world \<Rightarrow> call list \<times> (exn + (string \<times> nat) list)" where
  "lambda_handler event context w =
     (case environ w ''LOG_BUCKET'' of
        None \<Rightarrow> ([], Inl (KeyError ''LOG_BUCKET''))
      | Some bucket \<Rightarrow>
          (case describe_instances w of
             Inl e \<Rightarrow> ([DescribeInstances], Inl e)
           | Inr resp \<Rightarrow>
               (let reservations = get_or_empty (Reservations resp);
                    ts = strftime ''%Y-%m-%dT%H-%M-%SZ'' (utcnow w 0)
                in case reservations_loop ts reservations [] of
                     Inl e \<Rightarrow> ([DescribeInstances], Inl e)
                   | Inr lines0 \<Rightarrow>
                       (let lines = (if lines0 = [] then [ts @ '' - no instances found'']
                                     else lines0);
                            body = encode_utf8 (str_join [CHR 0x0A] lines);
                            key = ''logs/ec2_status_'' @ ts @ ''.txt''
                        in case put_object w bucket key body of
                             Some e \<Rightarrow> ([DescribeInstances, PutObject bucket key body], Inl e)
                           | None \<Rightarrow>
                               ([DescribeInstances, PutObject bucket key body],
                                Inr [(''count'', length lines)])))))"

subsection \<open>Notions the properties are stated with\<close>

text \<open>
  The instance descriptors of a response in the order the two loops visit them:
  reservation by reservation and, within a reservation, instance by instance; a missing
  \<open>Reservations\<close> or \<open>Instances\<close> key gives the default \<open>[]\<close> of \<open>.get\<close>.
\<close>

definition descriptors :: "response_dict \<Rightarrow> instance_dict list" where
  "descriptors resp =
     concat (map (\<lambda>r. get_or_empty (Instances r)) (get_or_empty (Reservations resp)))"

text \<open>
  The instance record of a descriptor: its identifier and its state name, when the
  descriptor has \<open>InstanceId\<close>, \<open>State\<close> and \<open>Name\<close> under \<open>State\<close>.
\<close>

definition instance_record :: "instance_dict \<Rightarrow> (string \<times> string) option" where
  "instance_record inst =
     (case InstanceId inst of
        None \<Rightarrow> None
      | Some iid \<Rightarrow>
          (case State inst of
             None \<Rightarrow> None
           | Some st \<Rightarrow> (case Name st of None \<Rightarrow> None | Some state \<Rightarrow> Some (iid, state))))"

fun instance_records :: "instance_dict list \<Rightarrow> (string \<times> string) list option" where
  "instance_records [] = Some []"
| "instance_records (inst # insts) =
     (case instance_record inst of
        None \<Rightarrow> None
      | Some r \<Rightarrow> (case instance_records insts of None \<Rightarrow> None | Some rs \<Rightarrow> Some (r # rs)))"

text \<open>
  The flattened instance sequence of a response: the records of all its descriptors, in
  order; \<open>None\<close> when some descriptor lacks a key.
\<close>

definition flattened :: "response_dict \<Rightarrow> (string \<times> string) list option" where
  "flattened resp = instance_records (descriptors resp)"

definition record_line :: "string \<Rightarrow> string \<times> string \<Rightarrow> string" where
  "record_line ts r = ts @ '' - '' @ fst r @ '' - '' @ snd r"

definition report_lines :: "string \<Rightarrow> (string \<times> string) list \<Rightarrow> string list" where
  "report_lines ts recs =
     (if recs = [] then [ts @ '' - no instances found''] else map (record_line ts) recs)"

text \<open>The exceptions the loop body can raise.\<close>

definition missing_keys :: "exn set" where
  "missing_keys = {KeyError ''InstanceId'', KeyError ''State'', KeyError ''Name''}"

text \<open>A descriptor on which the loop body raises.\<close>

definition lacks_key :: "instance_dict \<Rightarrow> bool" where
  "lacks_key inst =
     (InstanceId inst = None \<or> (case State inst of None \<Rightarrow> True | Some st \<Rightarrow> Name st = None))"

text \<open>
  The response with every missing \<open>Reservations\<close> and \<open>Instances\<close> key filled in with
  the empty list.
\<close>

definition fill_defaults :: "response_dict \<Rightarrow> response_dict" where
  "fill_defaults resp =
     \<lparr>Reservations =
        Some (map (\<lambda>r. \<lparr>Instances = Some (get_or_empty (Instances r))\<rparr>)
                (get_or_empty (Reservations resp)))\<rparr>"

text \<open>
  The index, in the flattened sequence, of instance \<open>k\<close> of reservation \<open>j\<close>: the number
  of instances of the reservations before \<open>j\<close>, plus \<open>k\<close>.
\<close>

definition line_index :: "reservation_dict list \<Rightarrow> nat \<Rightarrow> nat \<Rightarrow> nat" where
  "line_index rs j k = sum_list (map (\<lambda>r. length (get_or_empty (Instances r))) (take j rs)) + k"

text \<open>The keys and bodies written by a list of calls.\<close>

fun writes :: "call list \<Rightarrow> (string \<times> string) list" where
  "writes [] = []"
| "writes (DescribeInstances # cs) = writes cs"
| "writes (PutObject bucket key body # cs) = (key, body) # writes cs"

text \<open>
  The timestamp pattern \<open>YYYY-MM-DDTHH-MM-SSZ\<close>: the letters \<open>Y\<close>, \<open>M\<close>, \<open>D\<close>, \<open>H\<close> and \<open>S\<close>
  of a pattern stand for one decimal digit each, every other character for itself.
\<close>

definition digits :: "char set" where
  "digits = set ''0123456789''"

definition placeholder :: "char \<Rightarrow> bool" where
  "placeholder p = (p \<in> set ''YMDHS'')"

fun has_shape :: "string \<Rightarrow> string \<Rightarrow> bool" where
  "has_shape [] [] = True"
| "has_shape (p # ps) (c # cs) =
     ((if placeholder p then c \<in> digits else c = p) \<and> has_shape ps cs)"
| "has_shape _ _ = False"

text \<open>Two clock readings within the same second.\<close>

definition same_second :: "datetime \<Rightarrow> datetime \<Rightarrow> bool" where
  "same_second a b =
     (year a = year b \<and> month a = month b \<and> day a = day b \<and>
      hour a = hour b \<and> minute a = minute b \<and> second a = second b)"

text \<open>\<open>body.split(sep)\<close> for a one-character separator: the records of a stored object.\<close>

fun split_on :: "char \<Rightarrow> string \<Rightarrow> string list" where
  "split_on c [] = [[]]"
| "split_on c (x # xs) =
     (if x = c then [] # split_on c xs
      else (case split_on c xs of [] \<Rightarrow> [[x]] | l # ls \<Rightarrow> (x # l) # ls))"

subsection \<open>Example invocations\<close>

text \<open>
  A clock that starts at 2024-03-01 12:00:00 UTC and has moved on by one second at each
  later reading.
\<close>

definition example_clock :: "nat \<Rightarrow> datetime" where
  "example_clock k =
     \<lparr>year = 2024, month = 3, day = 1, hour = 12, minute = 0, second = k mod 60,
      microsecond = 0\<rparr>"

text \<open>One reservation with the instances i-001 (running) and i-002 (stopped).\<close>

definition two_instances :: response_dict where
  "two_instances =
     \<lparr>Reservations = Some
        [\<lparr>Instances = Some
            [\<lparr>InstanceId = Some ''i-001'', State = Some \<lparr>Name = Some ''running''\<rparr>\<rparr>,
             \<lparr>InstanceId = Some ''i-002'', State = Some \<lparr>Name = Some ''stopped''\<rparr>\<rparr>]\<rparr>]\<rparr>"

definition example_world :: world where
  "example_world =
     \<lparr>environ = [''LOG_BUCKET'' \<mapsto> ''status-logs''],
      describe_instances = Inr two_instances,
      utcnow = example_clock,
      put_object = (\<lambda>bucket key body. None)\<rparr>"

text \<open>A response without reservations.\<close>

definition no_instances :: response_dict where
  "no_instances = \<lparr>Reservations = Some []\<rparr>"

text \<open>A permission error of the inventory call.\<close>

definition access_denied :: exn where
  "access_denied = ClientError ''UnauthorizedOperation''"

text \<open>
  A second world with the same inventory: another bucket, a clock that reads 999999
  microseconds later within each second, and a store that refuses the write.
\<close>

definition other_world :: world where
  "other_world =
     \<lparr>environ = [''LOG_BUCKET'' \<mapsto> ''other-logs''],
      describe_instances = Inr two_instances,
      utcnow = (\<lambda>k. (example_clock k)\<lparr>microsecond := 999999\<rparr>),
      put_object = (\<lambda>bucket key body. Some (ClientError ''AccessDenied''))\<rparr>"

text \<open>
  Three reservations: two instances, a reservation without the \<open>Instances\<close> key, one
  instance.
\<close>

definition three_reservations :: response_dict where
  "three_reservations =
     \<lparr>Reservations = Some
        [\<lparr>Instances = Some
            [\<lparr>InstanceId = Some ''i-001'', State = Some \<lparr>Name = Some ''running''\<rparr>\<rparr>,
             \<lparr>InstanceId = Some ''i-002'', State = Some \<lparr>Name = Some ''stopped''\<rparr>\<rparr>]\<rparr>,
         \<lparr>Instances = None\<rparr>,
         \<lparr>Instances = Some
            [\<lparr>InstanceId = Some ''i-003'', State = Some \<lparr>Name = Some ''pending''\<rparr>\<rparr>]\<rparr>]\<rparr>"

definition fleet_world :: world where
  "fleet_world = example_world\<lparr>describe_instances := Inr three_reservations\<rparr>"

text \<open>
  A response without the \<open>Reservations\<close> key, and one whose second instance has no
  \<open>State\<close> key.
\<close>

definition no_reservations_key :: response_dict where
  "no_reservations_key = \<lparr>Reservations = None\<rparr>"

definition half_described :: response_dict where
  "half_described =
     \<lparr>Reservations = Some
        [\<lparr>Instances = Some
            [\<lparr>InstanceId = Some ''i-001'', State = Some \<lparr>Name = Some ''running''\<rparr>\<rparr>,
             \<lparr>InstanceId = Some ''i-002'', State = None\<rparr>]\<rparr>]\<rparr>"

text \<open>A response whose only instance has a newline inside its identifier.\<close>

definition newline_in_id :: response_dict where
  "newline_in_id =
     \<lparr>Reservations = Some
        [\<lparr>Instances = Some
            [\<lparr>InstanceId = Some (''i-1'' @ [CHR 0x0A] @ ''X''),
              State = Some \<lparr>Name = Some ''running''\<rparr>\<rparr>]\<rparr>]\<rparr>"

section \<open>Auxiliary facts\<close>

subsection \<open>The timestamp\<close>

lemma digit_in: "digit n \<in> digits"
  unfolding digit_def digits_def by (rule nth_mem) simp

lemma set_decimal: "set (decimal n) \<subseteq> digits"
proof (induction n rule: decimal.induct)
  case (1 n)
  show ?case
  proof (cases "n < 10")
    case True
    then show ?thesis using digit_in [of n] by (subst decimal.simps) simp
  next
    case False
    then show ?thesis using 1 digit_in [of n] by (subst decimal.simps) simp
  qed
qed

lemma zero_digit: "CHR ''0'' \<in> digits"
  by (simp add: digits_def)

lemma set_zfill_decimal: "set (zfill k (decimal n)) \<subseteq> digits"
  using set_decimal [of n] zero_digit by (auto simp: zfill_def)

lemma set_directive: "set (directive c d) \<subseteq> digits \<union> {CHR ''%'', c}"
  unfolding directive_def using set_zfill_decimal by auto

lemma set_strftime: "set (strftime fmt d) \<subseteq> digits \<union> set fmt"
proof (induction fmt d rule: strftime.induct)
  case (3 c x cs d)
  show ?case
  proof (cases "c = CHR ''%''")
    case True
    then show ?thesis using 3 set_directive [of x d] by auto
  next
    case False
    then show ?thesis using 3 by auto
  qed
qed simp_all

lemma digit_0: "digit 0 = CHR ''0''"
  by (simp add: digit_def)

lemma decimal_1: "n < 10 \<Longrightarrow> decimal n = [digit n]"
  by (subst decimal.simps) simp

lemma decimal_2: "10 \<le> n \<Longrightarrow> n < 100 \<Longrightarrow> decimal n = [digit (n div 10), digit n]"
  by (subst decimal.simps) (simp add: decimal_1)

lemma decimal_3:
  "100 \<le> n \<Longrightarrow> n < 1000 \<Longrightarrow> decimal n = [digit (n div 100), digit (n div 10), digit n]"
  by (subst decimal.simps) (simp add: decimal_2 div_mult2_eq [symmetric])

lemma decimal_4:
  "1000 \<le> n \<Longrightarrow> n < 10000 \<Longrightarrow>
   decimal n = [digit (n div 1000), digit (n div 100), digit (n div 10), digit n]"
  by (subst decimal.simps) (simp add: decimal_3 div_mult2_eq [symmetric])

lemma zfill_2: "n < 100 \<Longrightarrow> zfill 2 (decimal n) = [digit (n div 10), digit n]"
  by (cases "n < 10") (simp_all add: decimal_1 decimal_2 zfill_def digit_0)

lemma zfill_4:
  assumes "n < 10000"
  shows "zfill 4 (decimal n) = [digit (n div 1000), digit (n div 100), digit (n div 10), digit n]"
proof -
  consider "n < 10" | "10 \<le> n" "n < 100" | "100 \<le> n" "n < 1000" | "1000 \<le> n"
    by linarith
  then show ?thesis
  proof cases
    case 1
    then show ?thesis by (simp add: decimal_1 zfill_def digit_0 numeral_3_eq_3)
  next
    case 2
    then show ?thesis by (simp add: decimal_2 zfill_def digit_0 numeral_2_eq_2)
  next
    case 3
    then show ?thesis by (simp add: decimal_3 zfill_def digit_0)
  next
    case 4
    with assms show ?thesis by (simp add: decimal_4 zfill_def)
  qed
qed

lemma strftime_unfold:
  "strftime ''%Y-%m-%dT%H-%M-%SZ'' d =
     zfill 4 (decimal (year d)) @ ''-'' @ zfill 2 (decimal (month d)) @ ''-'' @
     zfill 2 (decimal (day d)) @ ''T'' @ zfill 2 (decimal (hour d)) @ ''-'' @
     zfill 2 (decimal (minute d)) @ ''-'' @ zfill 2 (decimal (second d)) @ ''Z''"
  by (simp add: directive_def)

lemma days_in_month_le: "days_in_month y m \<le> 31"
  by (simp add: days_in_month_def)

lemma strftime_digits:
  assumes "is_datetime d"
  shows "strftime ''%Y-%m-%dT%H-%M-%SZ'' d =
     [digit (year d div 1000), digit (year d div 100), digit (year d div 10), digit (year d),
      CHR ''-'', digit (month d div 10), digit (month d),
      CHR ''-'', digit (day d div 10), digit (day d),
      CHR ''T'', digit (hour d div 10), digit (hour d),
      CHR ''-'', digit (minute d div 10), digit (minute d),
      CHR ''-'', digit (second d div 10), digit (second d), CHR ''Z'']"
proof -
  have y: "year d < 10000" and m: "month d < 100" and h: "hour d < 100"
    and mi: "minute d < 100" and s: "second d < 100"
    using assms by (simp_all add: is_datetime_def)
  have "day d \<le> 31"
    using assms days_in_month_le [of "year d" "month d"] by (simp add: is_datetime_def)
  then have dd: "day d < 100" by simp
  show ?thesis
    by (simp only: strftime_unfold zfill_4 [OF y] zfill_2 [OF m] zfill_2 [OF dd]
        zfill_2 [OF h] zfill_2 [OF mi] zfill_2 [OF s] append_Cons append_Nil)
qed

lemma strftime_shape:
  assumes "is_datetime d"
  shows "has_shape ''YYYY-MM-DDTHH-MM-SSZ'' (strftime ''%Y-%m-%dT%H-%M-%SZ'' d)"
  by (simp only: strftime_digits [OF assms]) (simp add: placeholder_def digit_in)

subsection \<open>The loops and the handler\<close>

lemma instance_records_append:
  "instance_records (xs @ ys) =
     (case instance_records xs of
        None \<Rightarrow> None
      | Some a \<Rightarrow> (case instance_records ys of None \<Rightarrow> None | Some b \<Rightarrow> Some (a @ b)))"
  by (induction xs) (simp_all split: option.splits)

lemma instances_loop_records:
  "instance_records insts = Some recs \<Longrightarrow>
   instances_loop ts insts acc = Inr (acc @ map (record_line ts) recs)"
proof (induction insts arbitrary: acc recs)
  case Nil
  then show ?case by simp
next
  case (Cons inst insts)
  then show ?case
    by (auto simp: instance_record_def record_line_def split: option.splits)
qed

lemma instances_loop_raises:
  "instance_records insts = None \<Longrightarrow> \<exists>e \<in> missing_keys. instances_loop ts insts acc = Inl e"
proof (induction insts arbitrary: acc)
  case Nil
  then show ?case by simp
next
  case (Cons inst insts)
  then show ?case
    by (auto simp: instance_record_def missing_keys_def split: option.splits)
qed

lemma reservations_loop_records:
  "instance_records (concat (map (\<lambda>r. get_or_empty (Instances r)) rs)) = Some recs \<Longrightarrow>
   reservations_loop ts rs acc = Inr (acc @ map (record_line ts) recs)"
proof (induction rs arbitrary: acc recs)
  case Nil
  then show ?case by simp
next
  case (Cons r rs)
  from Cons.prems obtain a b where
    a: "instance_records (get_or_empty (Instances r)) = Some a" and
    b: "instance_records (concat (map (\<lambda>r. get_or_empty (Instances r)) rs)) = Some b" and
    recs: "recs = a @ b"
    by (auto simp: instance_records_append split: option.splits)
  show ?case
    by (simp add: instances_loop_records [OF a] Cons.IH [OF b] recs)
qed

lemma reservations_loop_raises:
  "instance_records (concat (map (\<lambda>r. get_or_empty (Instances r)) rs)) = None \<Longrightarrow>
   \<exists>e \<in> missing_keys. reservations_loop ts rs acc = Inl e"
proof (induction rs arbitrary: acc)
  case Nil
  then show ?case by simp
next
  case (Cons r rs)
  show ?case
  proof (cases "instance_records (get_or_empty (Instances r))")
    case None
    then show ?thesis using instances_loop_raises [OF None, of ts acc] by auto
  next
    case (Some a)
    with Cons.prems have
      "instance_records (concat (map (\<lambda>r. get_or_empty (Instances r)) rs)) = None"
      by (auto simp: instance_records_append split: option.splits)
    then show ?thesis
      using Cons.IH [of "acc @ map (record_line ts) a"]
      by (simp add: instances_loop_records [OF Some])
  qed
qed

lemma handler_records:
  assumes "environ w ''LOG_BUCKET'' = Some bucket"
    and "describe_instances w = Inr resp"
    and "flattened resp = Some recs"
    and "ts = strftime ''%Y-%m-%dT%H-%M-%SZ'' (utcnow w 0)"
    and "key = ''logs/ec2_status_'' @ ts @ ''.txt''"
    and "body = encode_utf8 (str_join [CHR 0x0A] (report_lines ts recs))"
  shows "lambda_handler event context w =
           ([DescribeInstances, PutObject bucket key body],
            (case put_object w bucket key body of
               Some e \<Rightarrow> Inl e
             | None \<Rightarrow> Inr [(''count'', length (report_lines ts recs))]))"
proof -
  have "reservations_loop ts (get_or_empty (Reservations resp)) [] =
          Inr (map (record_line ts) recs)"
    using reservations_loop_records [of "get_or_empty (Reservations resp)" recs ts "[]"]
      assms(3) by (simp add: flattened_def descriptors_def)
  then show ?thesis
    using assms(1,2,4,5,6)
    by (simp add: lambda_handler_def report_lines_def Let_def split: option.splits)
qed

lemma handler_key_error:
  assumes "environ w ''LOG_BUCKET'' = Some bucket"
    and "describe_instances w = Inr resp"
    and "flattened resp = None"
  shows "\<exists>e \<in> missing_keys. lambda_handler event context w = ([DescribeInstances], Inl e)"
proof -
  obtain e where "e \<in> missing_keys" and
    "reservations_loop (strftime ''%Y-%m-%dT%H-%M-%SZ'' (utcnow w 0))
       (get_or_empty (Reservations resp)) [] = Inl e"
    using reservations_loop_raises [of "get_or_empty (Reservations resp)"] assms(3)
    by (auto simp: flattened_def descriptors_def)
  then show ?thesis
    using assms(1,2) by (auto simp: lambda_handler_def Let_def)
qed

subsection \<open>Characters of the timestamp, and splitting at a separator\<close>

lemma timestamp_without:
  assumes "c \<notin> digits" and "c \<notin> set ''%Y-%m-%dT%H-%M-%SZ''"
  shows "c \<notin> set (strftime ''%Y-%m-%dT%H-%M-%SZ'' d)"
  using set_strftime [of "''%Y-%m-%dT%H-%M-%SZ''" d] assms by blast

lemma newline_not_in_timestamp: "CHR 0x0A \<notin> set (strftime ''%Y-%m-%dT%H-%M-%SZ'' d)"
  by (rule timestamp_without) (simp_all add: digits_def)

lemma colon_not_in_timestamp: "CHR '':'' \<notin> set (strftime ''%Y-%m-%dT%H-%M-%SZ'' d)"
  by (rule timestamp_without) (simp_all add: digits_def)

lemma split_on_without: "c \<notin> set l \<Longrightarrow> split_on c l = [l]"
  by (induction l) auto

lemma split_on_append:
  "c \<notin> set l \<Longrightarrow> split_on c (l @ c # rest) = l # split_on c rest"
  by (induction l) auto

lemma split_on_join:
  "lines \<noteq> [] \<Longrightarrow> \<forall>l \<in> set lines. c \<notin> set l \<Longrightarrow> split_on c (str_join [c] lines) = lines"
proof (induction "[c]" lines rule: str_join.induct)
  case 1
  then show ?case by simp
next
  case (2 x)
  then show ?case by (simp add: split_on_without)
next
  case (3 x y ys)
  then show ?case by (simp add: split_on_append)
qed

lemma report_lines_without:
  assumes "c \<notin> set ts" and "c \<notin> set '' - no instances found''"
    and "\<forall>r \<in> set recs. c \<notin> set (fst r) \<and> c \<notin> set (snd r)"
  shows "\<forall>l \<in> set (report_lines ts recs). c \<notin> set l"
  using assms by (auto simp: report_lines_def record_line_def)

lemma report_lines_nonempty: "report_lines ts recs \<noteq> []"
  by (simp add: report_lines_def)

lemma split_report:
  assumes "ts = strftime ''%Y-%m-%dT%H-%M-%SZ'' d"
    and "\<forall>r \<in> set recs. CHR 0x0A \<notin> set (fst r) \<and> CHR 0x0A \<notin> set (snd r)"
  shows "split_on (CHR 0x0A) (encode_utf8 (str_join [CHR 0x0A] (report_lines ts recs))) =
           report_lines ts recs"
proof -
  have "CHR 0x0A \<notin> set ts"
    using assms(1) newline_not_in_timestamp by simp
  then have "\<forall>l \<in> set (report_lines ts recs). CHR 0x0A \<notin> set l"
    using assms(2) by (intro report_lines_without) simp_all
  then show ?thesis
    unfolding encode_utf8_def by (rule split_on_join [OF report_lines_nonempty])
qed

lemma handler_returns:
  assumes "lambda_handler event context w = (calls, Inr result)"
    and "ts = strftime ''%Y-%m-%dT%H-%M-%SZ'' (utcnow w 0)"
    and "key = ''logs/ec2_status_'' @ ts @ ''.txt''"
  shows "\<exists>bucket resp recs.
           environ w ''LOG_BUCKET'' = Some bucket \<and> describe_instances w = Inr resp \<and>
           flattened resp = Some recs \<and>
           calls = [DescribeInstances,
                    PutObject bucket key (encode_utf8 (str_join [CHR 0x0A] (report_lines ts recs)))] \<and>
           result = [(''count'', length (report_lines ts recs))]"
proof (cases "environ w ''LOG_BUCKET''")
  case None
  then show ?thesis using assms(1) by (simp add: lambda_handler_def)
next
  case (Some bucket)
  show ?thesis
  proof (cases "describe_instances w")
    case (Inl e)
    then show ?thesis using assms(1) Some by (simp add: lambda_handler_def)
  next
    case (Inr resp)
    show ?thesis
    proof (cases "flattened resp")
      case None
      then show ?thesis
        using handler_key_error [OF Some Inr None, of event "context"] assms(1) by auto
    next
      case (Some recs)
      note bucket = \<open>environ w ''LOG_BUCKET'' = Some bucket\<close>
      have "calls = [DescribeInstances,
               PutObject bucket key (encode_utf8 (str_join [CHR 0x0A] (report_lines ts recs)))] \<and>
            result = [(''count'', length (report_lines ts recs))]"
        using handler_records [OF bucket Inr Some assms(2) assms(3) refl, of event "context"]
          assms(1)
        by (auto split: option.splits)
      with bucket Inr Some show ?thesis by blast
    qed
  qed
qed

lemma handler_calls:
  assumes "ts = strftime ''%Y-%m-%dT%H-%M-%SZ'' (utcnow w 0)"
    and "key = ''logs/ec2_status_'' @ ts @ ''.txt''"
  shows "fst (lambda_handler event context w) = [] \<or>
         fst (lambda_handler event context w) = [DescribeInstances] \<or>
         (\<exists>bucket body.
            fst (lambda_handler event context w) =
              [DescribeInstances, PutObject bucket key body])"
proof (cases "environ w ''LOG_BUCKET''")
  case None
  then show ?thesis by (simp add: lambda_handler_def)
next
  case (Some bucket)
  note bucket = Some
  show ?thesis
  proof (cases "describe_instances w")
    case (Inl e)
    then show ?thesis using bucket by (simp add: lambda_handler_def)
  next
    case (Inr resp)
    show ?thesis
    proof (cases "flattened resp")
      case None
      then show ?thesis
        using handler_key_error [OF bucket Inr None, of event "context"] by auto
    next
      case (Some recs)
      show ?thesis
        using handler_records [OF bucket Inr Some assms(1) assms(2) refl, of event "context"]
        by simp
    qed
  qed
qed

lemma key_without_colon:
  "CHR '':'' \<notin> set (''logs/ec2_status_'' @ strftime ''%Y-%m-%dT%H-%M-%SZ'' d @ ''.txt'')"
  using colon_not_in_timestamp [of d] by simp

lemma strftime_same_second:
  assumes "same_second a b"
  shows "strftime ''%Y-%m-%dT%H-%M-%SZ'' a = strftime ''%Y-%m-%dT%H-%M-%SZ'' b"
  using assms unfolding strftime_unfold same_second_def by simp

subsection \<open>Positions in the flattened sequence\<close>

lemma nth_concat_index:
  "j < length xss \<Longrightarrow> k < length (xss ! j) \<Longrightarrow>
   sum_list (map length (take j xss)) + k < length (concat xss) \<and>
   concat xss ! (sum_list (map length (take j xss)) + k) = xss ! j ! k"
proof (induction xss arbitrary: j)
  case Nil
  then show ?case by simp
next
  case (Cons xs xss)
  show ?case
  proof (cases j)
    case 0
    with Cons.prems show ?thesis by (simp add: nth_append)
  next
    case (Suc i)
    with Cons.prems have "i < length xss" and "k < length (xss ! i)"
      by simp_all
    from Cons.IH [OF this] Suc show ?thesis
      by (simp add: nth_append add.assoc)
  qed
qed

lemma instance_records_nth:
  "instance_records insts = Some recs \<Longrightarrow>
   length recs = length insts \<and> (\<forall>i < length insts. instance_record (insts ! i) = Some (recs ! i))"
proof (induction insts arbitrary: recs)
  case Nil
  then show ?case by simp
next
  case (Cons inst insts)
  from Cons.prems obtain r rs where
    r: "instance_record inst = Some r" and rs: "instance_records insts = Some rs" and
    recs: "recs = r # rs"
    by (auto split: option.splits)
  from Cons.IH [OF rs] r show ?case
    unfolding recs by (auto simp: nth_Cons split: nat.splits)
qed

lemma line_index_concat:
  "line_index rs j k =
     sum_list (map length (take j (map (\<lambda>r. get_or_empty (Instances r)) rs))) + k"
  by (simp add: line_index_def take_map comp_def)

lemma sum_list_take_mono:
  fixes f :: "'a \<Rightarrow> nat"
  assumes "i \<le> j"
  shows "sum_list (map f (take i xs)) \<le> sum_list (map f (take j xs))"
proof -
  from assms obtain d where "j = i + d"
    using le_Suc_ex by blast
  then show ?thesis by (simp add: take_add)
qed

lemma line_index_mono:
  assumes "j < length rs" and "k < length (get_or_empty (Instances (rs ! j)))"
    and "j < j' \<or> (j = j' \<and> k < k')"
  shows "line_index rs j k < line_index rs j' k'"
proof (cases "j < j'")
  case True
  let ?f = "\<lambda>r. length (get_or_empty (Instances r))"
  have "sum_list (map ?f (take (Suc j) rs)) = sum_list (map ?f (take j rs)) + ?f (rs ! j)"
    using assms(1) by (simp add: take_Suc_conv_app_nth)
  moreover have "sum_list (map ?f (take (Suc j) rs)) \<le> sum_list (map ?f (take j' rs))"
    using True by (intro sum_list_take_mono) simp
  ultimately show ?thesis
    using assms(2) by (simp add: line_index_def)
next
  case False
  with assms(3) show ?thesis by (simp add: line_index_def)
qed

subsection \<open>The handler reads the response through its descriptors only\<close>

lemma instances_loop_append:
  "instances_loop ts (xs @ ys) acc =
     (case instances_loop ts xs acc of Inl e \<Rightarrow> Inl e | Inr l \<Rightarrow> instances_loop ts ys l)"
  by (induction xs arbitrary: acc) (simp_all split: option.splits)

lemma reservations_loop_flat:
  "reservations_loop ts rs acc =
     instances_loop ts (concat (map (\<lambda>r. get_or_empty (Instances r)) rs)) acc"
proof (induction rs arbitrary: acc)
  case Nil
  then show ?case by simp
next
  case (Cons r rs)
  then show ?case by (simp add: instances_loop_append split: sum.splits)
qed

lemma descriptors_fill_defaults: "descriptors (fill_defaults resp) = descriptors resp"
  by (simp add: descriptors_def fill_defaults_def get_or_empty_def comp_def)

lemma handler_descriptors:
  assumes "describe_instances w = Inr resp"
    and "descriptors resp' = descriptors resp"
  shows "lambda_handler event context (w\<lparr>describe_instances := Inr resp'\<rparr>) =
         lambda_handler event context w"
proof -
  have "reservations_loop ts (get_or_empty (Reservations resp')) [] =
        reservations_loop ts (get_or_empty (Reservations resp)) []" for ts
    using assms(2) by (simp add: reservations_loop_flat descriptors_def)
  then show ?thesis
    using assms(1) by (cases "environ w ''LOG_BUCKET''") (simp_all add: lambda_handler_def Let_def cong: sum.case_cong)
qed

lemma instance_record_None_iff: "instance_record inst = None \<longleftrightarrow> lacks_key inst"
  by (simp add: instance_record_def lacks_key_def split: option.splits)

lemma instance_records_None_iff:
  "instance_records insts = None \<longleftrightarrow> (\<exists>inst \<in> set insts. lacks_key inst)"
  by (induction insts) (auto simp: instance_record_None_iff [symmetric] split: option.splits)

lemma no_instances_descriptors:
  "\<forall>r \<in> set (get_or_empty (Reservations resp)). Instances r = None \<Longrightarrow> descriptors resp = []"
  by (simp add: descriptors_def get_or_empty_def)

subsection \<open>The example invocation, evaluated\<close>

lemma example_timestamp:
  "strftime ''%Y-%m-%dT%H-%M-%SZ'' (example_clock 0) = ''2024-03-01T12-00-00Z''"
  by (simp add: example_clock_def directive_def zfill_def decimal.simps digit_def)

lemma example_flattened:
  "flattened two_instances = Some [(''i-001'', ''running''), (''i-002'', ''stopped'')]"
  by (simp add: flattened_def descriptors_def two_instances_def get_or_empty_def
      instance_record_def)

lemma example_records_newline_free:
  "\<forall>r \<in> set [(''i-001'', ''running''), (''i-002'', ''stopped'')].
     CHR 0x0A \<notin> set (fst r) \<and> CHR 0x0A \<notin> set (snd r)"
  by simp

lemma example_environ: "environ example_world ''LOG_BUCKET'' = Some ''status-logs''"
  by (simp add: example_world_def)

lemma example_describe: "describe_instances example_world = Inr two_instances"
  by (simp add: example_world_def)

lemma example_captured:
  "''2024-03-01T12-00-00Z'' = strftime ''%Y-%m-%dT%H-%M-%SZ'' (utcnow example_world 0)"
proof -
  have "utcnow example_world 0 = example_clock 0"
    by (simp add: example_world_def)
  then show ?thesis by (simp only: example_timestamp)
qed

text \<open>Example 1 of the specification.\<close>

lemma example_run:
  "lambda_handler () () example_world =
     ([DescribeInstances,
       PutObject ''status-logs'' ''logs/ec2_status_2024-03-01T12-00-00Z.txt''
         (''2024-03-01T12-00-00Z - i-001 - running'' @ [CHR 0x0A] @
          ''2024-03-01T12-00-00Z - i-002 - stopped'')],
      Inr [(''count'', 2)])"
proof -
  have 1: "environ example_world ''LOG_BUCKET'' = Some ''status-logs''"
    by (simp add: example_world_def)
  have 2: "describe_instances example_world = Inr two_instances"
    by (simp add: example_world_def)
  have "utcnow example_world 0 = example_clock 0"
    by (simp add: example_world_def)
  then have 4: "''2024-03-01T12-00-00Z'' = strftime ''%Y-%m-%dT%H-%M-%SZ'' (utcnow example_world 0)"
    by (simp only: example_timestamp)
  have 5: "put_object example_world b k v = None" for b k v
    by (simp add: example_world_def)
  show ?thesis
    using handler_records [OF 1 2 example_flattened 4 refl refl, of "()" "()"]
    by (simp add: 5 report_lines_def record_line_def encode_utf8_def)
qed

lemma example_is_datetime: "is_datetime (example_clock 0) \<and> 1000 \<le> year (example_clock 0)"
  by (simp add: is_datetime_def example_clock_def days_in_month_def)

lemma fleet_environ: "environ fleet_world ''LOG_BUCKET'' = Some ''status-logs''"
  by (simp add: fleet_world_def example_world_def)

lemma fleet_describe: "describe_instances fleet_world = Inr three_reservations"
  by (simp add: fleet_world_def)

lemma fleet_captured:
  "''2024-03-01T12-00-00Z'' = strftime ''%Y-%m-%dT%H-%M-%SZ'' (utcnow fleet_world 0)"
proof -
  have "utcnow fleet_world 0 = example_clock 0"
    by (simp add: fleet_world_def example_world_def)
  then show ?thesis by (simp only: example_timestamp)
qed

lemma fleet_flattened:
  "flattened three_reservations =
     Some [(''i-001'', ''running''), (''i-002'', ''stopped''), (''i-003'', ''pending'')]"
  by (simp add: flattened_def descriptors_def three_reservations_def get_or_empty_def
      instance_record_def)

lemma fleet_reservations:
  "[\<lparr>Instances = Some
            [\<lparr>InstanceId = Some ''i-001'', State = Some \<lparr>Name = Some ''running''\<rparr>\<rparr>,
             \<lparr>InstanceId = Some ''i-002'', State = Some \<lparr>Name = Some ''stopped''\<rparr>\<rparr>]\<rparr>,
         \<lparr>Instances = None\<rparr>,
         \<lparr>Instances = Some
            [\<lparr>InstanceId = Some ''i-003'', State = Some \<lparr>Name = Some ''pending''\<rparr>\<rparr>]\<rparr>] =
   get_or_empty (Reservations three_reservations)"
  by (simp add: three_reservations_def get_or_empty_def)

lemma example_with_response:
  "environ (example_world\<lparr>describe_instances := Inr resp\<rparr>) ''LOG_BUCKET'' =
     Some ''status-logs'' \<and>
   describe_instances (example_world\<lparr>describe_instances := Inr resp\<rparr>) = Inr resp \<and>
   ''2024-03-01T12-00-00Z'' =
     strftime ''%Y-%m-%dT%H-%M-%SZ'' (utcnow (example_world\<lparr>describe_instances := Inr resp\<rparr>) 0)"
proof -
  have "utcnow (example_world\<lparr>describe_instances := Inr resp\<rparr>) 0 = example_clock 0"
    by (simp add: example_world_def)
  then have "''2024-03-01T12-00-00Z'' =
     strftime ''%Y-%m-%dT%H-%M-%SZ'' (utcnow (example_world\<lparr>describe_instances := Inr resp\<rparr>) 0)"
    by (simp only: example_timestamp)
  then show ?thesis by (simp add: example_world_def)
qed

text \<open>The second instance has no \<open>State\<close>: that is the key reported.\<close>

lemma half_described_run:
  "lambda_handler () () (example_world\<lparr>describe_instances := Inr half_described\<rparr>) =
     ([DescribeInstances], Inl (KeyError ''State''))"
  by (simp add: lambda_handler_def example_world_def half_described_def get_or_empty_def)

lemma newline_in_id_flattened:
  "flattened newline_in_id = Some [(''i-1'' @ [CHR 0x0A] @ ''X'', ''running'')]"
  by (simp add: flattened_def descriptors_def newline_in_id_def get_or_empty_def
      instance_record_def)

section \<open>The properties\<close>

subsection \<open>Configuration\<close>

text \<open>
  C3. When \<open>LOG_BUCKET\<close> is not in the environment the handler raises
  \<open>KeyError('LOG_BUCKET')\<close> and has issued no remote call: neither
  \<open>describe_instances\<close> nor \<open>put_object\<close> is invoked, whatever they would have done, and
  no default bucket is used.
\<close>

theorem missing_bucket_aborts:
  assumes "environ w ''LOG_BUCKET'' = None"
  shows "lambda_handler event context w = ([], Inl (KeyError ''LOG_BUCKET''))"
  using assms by (simp add: lambda_handler_def)

text \<open>
  The example world with an empty environment: both collaborators would succeed, and
  neither is called.
\<close>

theorem missing_bucket_aborts_witness:
  "environ (example_world\<lparr>environ := Map.empty\<rparr>) ''LOG_BUCKET'' = None \<and>
   lambda_handler () () (example_world\<lparr>environ := Map.empty\<rparr>) =
     ([], Inl (KeyError ''LOG_BUCKET''))"
proof -
  have h: "environ (example_world\<lparr>environ := Map.empty\<rparr>) ''LOG_BUCKET'' = None"
    by simp
  show ?thesis
    using h missing_bucket_aborts [OF h, of "()" "()"] by simp
qed

subsection \<open>The trigger\<close>

text \<open>
  C9. The calls issued (bucket, key and body of the write among them) and the outcome do
  not depend on the event or the context: two invocations in the same world, with any two
  events and contexts, of any types, behave alike.
\<close>

theorem event_ignored:
  "lambda_handler event1 context1 w = lambda_handler event2 context2 w"
  by (simp add: lambda_handler_def)

subsection \<open>The report\<close>

text \<open>
  C2. When the response has no instance descriptor at all, the handler writes the single
  line \<open>{timestamp} - no instances found\<close> (a non-empty body without any newline) and,
  when the write returns, returns \<open>{"count": 1}\<close>; when the write raises, that
  exception is the outcome.
\<close>

theorem empty_inventory_sentinel:
  assumes "environ w ''LOG_BUCKET'' = Some bucket"
    and "describe_instances w = Inr resp"
    and "descriptors resp = []"
    and "ts = strftime ''%Y-%m-%dT%H-%M-%SZ'' (utcnow w 0)"
    and "key = ''logs/ec2_status_'' @ ts @ ''.txt''"
    and "body = ts @ '' - no instances found''"
  shows "lambda_handler event context w =
           ([DescribeInstances, PutObject bucket key body],
            (case put_object w bucket key body of
               Some e \<Rightarrow> Inl e
             | None \<Rightarrow> Inr [(''count'', 1)])) \<and>
         body \<noteq> [] \<and> CHR 0x0A \<notin> set body"
proof -
  have f: "flattened resp = Some []"
    using assms(3) by (simp add: flattened_def)
  have b: "body = encode_utf8 (str_join [CHR 0x0A] (report_lines ts []))"
    using assms(6) by (simp add: report_lines_def encode_utf8_def)
  have run: "lambda_handler event context w =
           ([DescribeInstances, PutObject bucket key body],
            (case put_object w bucket key body of
               Some e \<Rightarrow> Inl e
             | None \<Rightarrow> Inr [(''count'', length (report_lines ts []))]))"
    by (rule handler_records [OF assms(1) assms(2) f assms(4) assms(5) b])
  have one: "length (report_lines ts []) = 1"
    by (simp add: report_lines_def)
  have nl: "CHR 0x0A \<notin> set body"
    using newline_not_in_timestamp [of "utcnow w 0"] assms(4,6) by simp
  have ne: "body \<noteq> []"
    using assms(6) by simp
  show ?thesis
    using run nl ne unfolding one by simp
qed

text \<open>Example 2 of the specification: zero reservations at 2024-03-01 12:00:00 UTC.\<close>

theorem empty_inventory_sentinel_witness:
  "lambda_handler () () (example_world\<lparr>describe_instances := Inr no_instances\<rparr>) =
     ([DescribeInstances,
       PutObject ''status-logs'' ''logs/ec2_status_2024-03-01T12-00-00Z.txt''
         ''2024-03-01T12-00-00Z - no instances found''],
      Inr [(''count'', 1)])"
proof -
  let ?w = "example_world\<lparr>describe_instances := Inr no_instances\<rparr>"
  have 1: "environ ?w ''LOG_BUCKET'' = Some ''status-logs''"
    by (simp add: example_world_def)
  have 2: "describe_instances ?w = Inr no_instances"
    by simp
  have 3: "descriptors no_instances = []"
    by (simp add: descriptors_def no_instances_def get_or_empty_def)
  have "utcnow ?w 0 = example_clock 0"
    by (simp add: example_world_def)
  then have 4: "''2024-03-01T12-00-00Z'' = strftime ''%Y-%m-%dT%H-%M-%SZ'' (utcnow ?w 0)"
    by (simp only: example_timestamp)
  have 5: "put_object ?w ''status-logs'' ''logs/ec2_status_2024-03-01T12-00-00Z.txt''
         ''2024-03-01T12-00-00Z - no instances found'' = None"
    by (simp add: example_world_def)
  show ?thesis
    using empty_inventory_sentinel [OF 1 2 3 4 refl refl, of "()" "()"] 5 by simp
qed



subsection \<open>The returned count\<close>

text \<open>
  C8, amended. Whenever the handler returns, it returns \<open>{"count": n}\<close> where \<open>n\<close> is the
  number of lines it joined into the body of its one write (\<open>report_lines\<close>: the sentinel
  line when there is no instance, one line per instance otherwise), so \<open>n\<close> is at least
  1. Provided no identifier and no state name contains a newline, \<open>n\<close> is also the number
  of newline-separated records of the stored body. The handler interpolates identifiers
  and state names as they are, so without that proviso the two numbers can differ: see
  the counterexample below.
\<close>

theorem count_is_lines_written:
  assumes "lambda_handler event context w = (calls, Inr result)"
    and "ts = strftime ''%Y-%m-%dT%H-%M-%SZ'' (utcnow w 0)"
    and "key = ''logs/ec2_status_'' @ ts @ ''.txt''"
  shows "\<exists>bucket resp recs body.
           describe_instances w = Inr resp \<and> flattened resp = Some recs \<and>
           body = encode_utf8 (str_join [CHR 0x0A] (report_lines ts recs)) \<and>
           calls = [DescribeInstances, PutObject bucket key body] \<and>
           result = [(''count'', length (report_lines ts recs))] \<and>
           length (report_lines ts recs) = (if recs = [] then 1 else length recs) \<and>
           1 \<le> length (report_lines ts recs) \<and>
           ((\<forall>r \<in> set recs. CHR 0x0A \<notin> set (fst r) \<and> CHR 0x0A \<notin> set (snd r)) \<longrightarrow>
              length (split_on (CHR 0x0A) body) = length (report_lines ts recs))"
proof -
  obtain bucket resp recs where
    d: "describe_instances w = Inr resp" and f: "flattened resp = Some recs" and
    c: "calls = [DescribeInstances,
          PutObject bucket key (encode_utf8 (str_join [CHR 0x0A] (report_lines ts recs)))]" and
    r: "result = [(''count'', length (report_lines ts recs))]"
    using handler_returns [OF assms] by blast
  have n: "length (report_lines ts recs) = (if recs = [] then 1 else length recs)"
    by (simp add: report_lines_def)
  have one: "1 \<le> length (report_lines ts recs)"
    by (cases recs) (simp_all add: report_lines_def)
  have s: "(\<forall>r \<in> set recs. CHR 0x0A \<notin> set (fst r) \<and> CHR 0x0A \<notin> set (snd r)) \<longrightarrow>
      length (split_on (CHR 0x0A) (encode_utf8 (str_join [CHR 0x0A] (report_lines ts recs)))) =
        length (report_lines ts recs)"
    using split_report [OF assms(2), of recs] by simp
  show ?thesis
    using d f c r n one s by blast
qed

text \<open>The example invocation returns count 2, and its stored body splits into 2 records.\<close>

theorem count_is_lines_written_witness:
  "\<exists>bucket key body.
     lambda_handler () () example_world =
       ([DescribeInstances, PutObject bucket key body], Inr [(''count'', 2)]) \<and>
     length (split_on (CHR 0x0A) body) = 2"
proof -
  let ?recs = "[(''i-001'', ''running''), (''i-002'', ''stopped'')]"
  let ?ts = "''2024-03-01T12-00-00Z''"
  let ?calls = "[DescribeInstances,
       PutObject ''status-logs'' ''logs/ec2_status_2024-03-01T12-00-00Z.txt''
         (''2024-03-01T12-00-00Z - i-001 - running'' @ [CHR 0x0A] @
          ''2024-03-01T12-00-00Z - i-002 - stopped'')]"
  from count_is_lines_written [OF example_run example_captured refl]
  show ?thesis
  proof (elim exE conjE)
    fix bucket resp recs body
    assume d: "describe_instances example_world = Inr resp"
      and f: "flattened resp = Some recs"
      and c: "?calls =
          [DescribeInstances, PutObject bucket (''logs/ec2_status_'' @ ?ts @ ''.txt'') body]"
      and r: "[(''count'', 2)] = [(''count'', length (report_lines ?ts recs))]"
      and s: "(\<forall>r \<in> set recs. CHR 0x0A \<notin> set (fst r) \<and> CHR 0x0A \<notin> set (snd r)) \<longrightarrow>
          length (split_on (CHR 0x0A) body) = length (report_lines ?ts recs)"
    from d have "resp = two_instances"
      by (simp add: example_describe)
    with f have recs: "recs = ?recs"
      by (simp add: example_flattened)
    from r have n: "length (report_lines ?ts recs) = 2"
      by simp
    from s [THEN mp, OF example_records_newline_free [folded recs]]
    have "length (split_on (CHR 0x0A) body) = 2"
      unfolding n .
    moreover have "lambda_handler () () example_world =
        ([DescribeInstances, PutObject bucket (''logs/ec2_status_'' @ ?ts @ ''.txt'') body],
         Inr [(''count'', 2)])"
      using example_run unfolding c .
    ultimately show ?thesis by (intro exI conjI)
  qed
qed

text \<open>
  C8 as stated, for every returning invocation, fails: with the one identifier
  \<open>"i-1\nX"\<close> the handler returns count 1, and the stored body has 2 newline-separated
  records.
\<close>

theorem count_differs_from_split_counterexample:
  "lambda_handler () () (example_world\<lparr>describe_instances := Inr newline_in_id\<rparr>) =
     ([DescribeInstances,
       PutObject ''status-logs'' ''logs/ec2_status_2024-03-01T12-00-00Z.txt''
         (''2024-03-01T12-00-00Z - i-1'' @ [CHR 0x0A] @ ''X - running'')],
      Inr [(''count'', 1)]) \<and>
   split_on (CHR 0x0A) (''2024-03-01T12-00-00Z - i-1'' @ [CHR 0x0A] @ ''X - running'') =
     [''2024-03-01T12-00-00Z - i-1'', ''X - running''] \<and>
   length (split_on (CHR 0x0A) (''2024-03-01T12-00-00Z - i-1'' @ [CHR 0x0A] @ ''X - running'')) = 2"
proof -
  let ?w = "example_world\<lparr>describe_instances := Inr newline_in_id\<rparr>"
  note a = example_with_response [of newline_in_id]
  have p: "put_object example_world b k v = None" for b k v
    by (simp add: example_world_def)
  have run: "lambda_handler () () ?w =
     ([DescribeInstances,
       PutObject ''status-logs'' ''logs/ec2_status_2024-03-01T12-00-00Z.txt''
         (''2024-03-01T12-00-00Z - i-1'' @ [CHR 0x0A] @ ''X - running'')],
      Inr [(''count'', 1)])"
    using handler_records [OF a [THEN conjunct1] a [THEN conjunct2, THEN conjunct1]
        newline_in_id_flattened a [THEN conjunct2, THEN conjunct2] refl refl, of "()" "()"]
    by (simp add: p report_lines_def record_line_def encode_utf8_def cong: option.case_cong)
  have sp: "split_on (CHR 0x0A) (''2024-03-01T12-00-00Z - i-1'' @ [CHR 0x0A] @ ''X - running'') =
     [''2024-03-01T12-00-00Z - i-1'', ''X - running'']"
    by simp
  from run sp show ?thesis by simp
qed

subsection \<open>The storage key\<close>

text \<open>
  C4. The key of every write the handler issues is \<open>logs/ec2_status_{ts}.txt\<close>, where
  \<open>ts\<close> is the formatted first clock reading: it depends on nothing else. No colon occurs
  in the key, for any clock reading. For a clock reading that is a \<open>datetime\<close> with a
  four-digit year, \<open>ts\<close> has the form \<open>YYYY-MM-DDTHH-MM-SSZ\<close>.
\<close>

theorem object_key_from_timestamp:
  assumes "PutObject bucket key body \<in> set (fst (lambda_handler event context w))"
    and "ts = strftime ''%Y-%m-%dT%H-%M-%SZ'' (utcnow w 0)"
  shows "key = ''logs/ec2_status_'' @ ts @ ''.txt'' \<and>
         CHR '':'' \<notin> set key \<and>
         (is_datetime (utcnow w 0) \<and> 1000 \<le> year (utcnow w 0) \<longrightarrow>
            has_shape ''YYYY-MM-DDTHH-MM-SSZ'' ts)"
proof -
  have k: "key = ''logs/ec2_status_'' @ ts @ ''.txt''"
    using handler_calls [OF assms(2) refl, of event "context"] assms(1) by auto
  have "CHR '':'' \<notin> set key"
    unfolding k assms(2) by (rule key_without_colon)
  moreover have "is_datetime (utcnow w 0) \<longrightarrow> has_shape ''YYYY-MM-DDTHH-MM-SSZ'' ts"
    unfolding assms(2) using strftime_shape by blast
  ultimately show ?thesis using k by blast
qed

text \<open>The write of the example invocation, at 2024-03-01 12:00:00 UTC.\<close>

theorem object_key_from_timestamp_witness:
  "PutObject ''status-logs'' ''logs/ec2_status_2024-03-01T12-00-00Z.txt''
      (''2024-03-01T12-00-00Z - i-001 - running'' @ [CHR 0x0A] @
       ''2024-03-01T12-00-00Z - i-002 - stopped'')
     \<in> set (fst (lambda_handler () () example_world)) \<and>
   CHR '':'' \<notin> set ''logs/ec2_status_2024-03-01T12-00-00Z.txt'' \<and>
   has_shape ''YYYY-MM-DDTHH-MM-SSZ'' ''2024-03-01T12-00-00Z''"
proof -
  have m: "PutObject ''status-logs'' ''logs/ec2_status_2024-03-01T12-00-00Z.txt''
      (''2024-03-01T12-00-00Z - i-001 - running'' @ [CHR 0x0A] @
       ''2024-03-01T12-00-00Z - i-002 - stopped'')
     \<in> set (fst (lambda_handler () () example_world))"
    unfolding example_run by simp
  have d: "is_datetime (utcnow example_world 0) \<and> 1000 \<le> year (utcnow example_world 0)"
    using example_is_datetime by (simp add: example_world_def)
  note t = object_key_from_timestamp [OF m example_captured]
  from t [THEN conjunct2, THEN conjunct1] t [THEN conjunct2, THEN conjunct2, THEN mp, OF d] m
  show ?thesis by (intro conjI)
qed

subsection \<open>Failure of the inventory call, and the order of the remote calls\<close>

text \<open>
  C5. With the bucket configured, when \<open>describe_instances\<close> raises \<open>e\<close> the handler
  raises that same \<open>e\<close>: the only call issued is the inventory call, there is no write and
  no returned value. When the handler returns, it has issued exactly two calls, the
  inventory call first and one write second, and the body of that write is the complete
  report of the response the inventory call returned. In every invocation the calls are
  none, the inventory call alone, or the inventory call followed by one write.
\<close>

theorem inventory_failure_and_write_order:
  assumes "ts = strftime ''%Y-%m-%dT%H-%M-%SZ'' (utcnow w 0)"
    and "key = ''logs/ec2_status_'' @ ts @ ''.txt''"
  shows "(environ w ''LOG_BUCKET'' = Some bucket \<and> describe_instances w = Inl e \<longrightarrow>
            lambda_handler event context w = ([DescribeInstances], Inl e)) \<and>
         (lambda_handler event context w = (calls, Inr result) \<longrightarrow>
            (\<exists>b resp recs.
               describe_instances w = Inr resp \<and> flattened resp = Some recs \<and>
               calls = [DescribeInstances,
                        PutObject b key
                          (encode_utf8 (str_join [CHR 0x0A] (report_lines ts recs)))])) \<and>
         (fst (lambda_handler event context w) = [] \<or>
          fst (lambda_handler event context w) = [DescribeInstances] \<or>
          (\<exists>b body. fst (lambda_handler event context w) =
             [DescribeInstances, PutObject b key body]))"
proof (intro conjI impI)
  assume "environ w ''LOG_BUCKET'' = Some bucket \<and> describe_instances w = Inl e"
  then show "lambda_handler event context w = ([DescribeInstances], Inl e)"
    by (simp add: lambda_handler_def)
next
  assume "lambda_handler event context w = (calls, Inr result)"
  from handler_returns [OF this assms]
  show "\<exists>b resp recs.
          describe_instances w = Inr resp \<and> flattened resp = Some recs \<and>
          calls = [DescribeInstances,
                   PutObject b key (encode_utf8 (str_join [CHR 0x0A] (report_lines ts recs)))]"
    by blast
next
  show "fst (lambda_handler event context w) = [] \<or>
        fst (lambda_handler event context w) = [DescribeInstances] \<or>
        (\<exists>b body. fst (lambda_handler event context w) =
           [DescribeInstances, PutObject b key body])"
    by (rule handler_calls [OF assms])
qed

text \<open>
  Example 3 of the specification (the inventory call raises a permission error), and the
  example invocation for the successful case.
\<close>

theorem inventory_failure_and_write_order_witness:
  "lambda_handler () () (example_world\<lparr>describe_instances := Inl access_denied\<rparr>) =
     ([DescribeInstances], Inl access_denied) \<and>
   (\<exists>b resp recs.
      describe_instances example_world = Inr resp \<and> flattened resp = Some recs \<and>
      fst (lambda_handler () () example_world) =
        [DescribeInstances,
         PutObject b ''logs/ec2_status_2024-03-01T12-00-00Z.txt''
           (encode_utf8 (str_join [CHR 0x0A] (report_lines ''2024-03-01T12-00-00Z'' recs)))])"
proof -
  let ?w = "example_world\<lparr>describe_instances := Inl access_denied\<rparr>"
  have h: "environ ?w ''LOG_BUCKET'' = Some ''status-logs'' \<and>
           describe_instances ?w = Inl access_denied"
    by (simp add: example_world_def)
  have 1: "lambda_handler () () ?w = ([DescribeInstances], Inl access_denied)"
    by (rule inventory_failure_and_write_order [OF refl refl, THEN conjunct1, THEN mp, OF h])
  have k: "''logs/ec2_status_2024-03-01T12-00-00Z.txt'' =
           ''logs/ec2_status_'' @ ''2024-03-01T12-00-00Z'' @ ''.txt''"
    by simp
  from inventory_failure_and_write_order [OF example_captured k,
      THEN conjunct2, THEN conjunct1, THEN mp, OF example_run]
  obtain b resp recs where
    "describe_instances example_world = Inr resp \<and> flattened resp = Some recs \<and>
     [DescribeInstances,
       PutObject ''status-logs'' ''logs/ec2_status_2024-03-01T12-00-00Z.txt''
         (''2024-03-01T12-00-00Z - i-001 - running'' @ [CHR 0x0A] @
          ''2024-03-01T12-00-00Z - i-002 - stopped'')] =
     [DescribeInstances,
      PutObject b ''logs/ec2_status_2024-03-01T12-00-00Z.txt''
        (encode_utf8 (str_join [CHR 0x0A] (report_lines ''2024-03-01T12-00-00Z'' recs)))]"
    by (elim exE)
  then have "describe_instances example_world = Inr resp \<and> flattened resp = Some recs \<and>
      fst (lambda_handler () () example_world) =
        [DescribeInstances,
         PutObject b ''logs/ec2_status_2024-03-01T12-00-00Z.txt''
           (encode_utf8 (str_join [CHR 0x0A] (report_lines ''2024-03-01T12-00-00Z'' recs)))]"
    unfolding example_run fst_conv by (elim conjE, intro conjI)
  then have 2: "\<exists>b resp recs.
      describe_instances example_world = Inr resp \<and> flattened resp = Some recs \<and>
      fst (lambda_handler () () example_world) =
        [DescribeInstances,
         PutObject b ''logs/ec2_status_2024-03-01T12-00-00Z.txt''
           (encode_utf8 (str_join [CHR 0x0A] (report_lines ''2024-03-01T12-00-00Z'' recs)))]"
    by (intro exI)
  from 1 2 show ?thesis by (rule conjI)
qed

subsection \<open>Determinism\<close>

text \<open>
  C7. Two invocations, each with a bucket configured, whose inventory calls behave alike
  and whose clock readings fall into the same second, hand the same keys and the same
  bodies (the UTF-8 bytes of the lines joined by single newlines) to \<open>put_object\<close>. The
  events, contexts, buckets, microseconds and the behaviour of the store may differ.
\<close>

theorem same_second_same_object:
  assumes "environ w1 ''LOG_BUCKET'' = Some bucket1"
    and "environ w2 ''LOG_BUCKET'' = Some bucket2"
    and "describe_instances w1 = describe_instances w2"
    and "same_second (utcnow w1 0) (utcnow w2 0)"
  shows "writes (fst (lambda_handler event1 context1 w1)) =
         writes (fst (lambda_handler event2 context2 w2))"
proof (cases "describe_instances w1")
  case (Inl e)
  then have "describe_instances w2 = Inl e"
    using assms(3) by simp
  with Inl assms(1,2) show ?thesis
    by (simp add: lambda_handler_def)
next
  case (Inr resp)
  then have d2: "describe_instances w2 = Inr resp"
    using assms(3) by simp
  show ?thesis
  proof (cases "flattened resp")
    case None
    from handler_key_error [OF assms(1) Inr None, of event1 context1]
      handler_key_error [OF assms(2) d2 None, of event2 context2]
    show ?thesis by auto
  next
    case (Some recs)
    have ts: "strftime ''%Y-%m-%dT%H-%M-%SZ'' (utcnow w1 0) =
              strftime ''%Y-%m-%dT%H-%M-%SZ'' (utcnow w2 0)"
      by (rule strftime_same_second [OF assms(4)])
    from handler_records [OF assms(1) Inr Some refl refl refl, of event1 context1]
      handler_records [OF assms(2) d2 Some ts refl refl, of event2 context2]
    show ?thesis by simp
  qed
qed

text \<open>
  The example world and the second world: their clock readings differ within one second,
  and the second world issues the write of the example invocation.
\<close>

theorem same_second_same_object_witness:
  "same_second (utcnow example_world 0) (utcnow other_world 0) \<and>
   utcnow example_world 0 \<noteq> utcnow other_world 0 \<and>
   writes (fst (lambda_handler () () other_world)) =
     [(''logs/ec2_status_2024-03-01T12-00-00Z.txt'',
       ''2024-03-01T12-00-00Z - i-001 - running'' @ [CHR 0x0A] @
       ''2024-03-01T12-00-00Z - i-002 - stopped'')]"
proof -
  have 1: "environ other_world ''LOG_BUCKET'' = Some ''other-logs''"
    by (simp add: other_world_def)
  have 2: "describe_instances example_world = describe_instances other_world"
    by (simp add: other_world_def example_world_def)
  have 3: "same_second (utcnow example_world 0) (utcnow other_world 0)"
    by (simp add: same_second_def other_world_def example_world_def)
  have 4: "utcnow example_world 0 \<noteq> utcnow other_world 0"
    by (simp add: other_world_def example_world_def example_clock_def)
  have "writes (fst (lambda_handler () () example_world)) =
        writes (fst (lambda_handler () () other_world))"
    by (rule same_second_same_object [OF example_environ 1 2 3])
  then have "writes (fst (lambda_handler () () other_world)) =
     [(''logs/ec2_status_2024-03-01T12-00-00Z.txt'',
       ''2024-03-01T12-00-00Z - i-001 - running'' @ [CHR 0x0A] @
       ''2024-03-01T12-00-00Z - i-002 - stopped'')]"
    unfolding example_run by simp
  with 3 4 show ?thesis by (intro conjI)
qed

subsection \<open>The order of the lines\<close>

text \<open>
  C6. Let \<open>rs\<close> be the reservations of the response and \<open>recs\<close> its flattened instance
  sequence. The body written is the join of the lines of \<open>recs\<close>, in the order of \<open>recs\<close>;
  there are as many as there are instances in all reservations together; and the record
  of instance \<open>k\<close> of reservation \<open>j\<close> stands at position \<open>line_index rs j k\<close>. That
  position grows strictly with the reservation and, within a reservation, with the
  instance: a later reservation, or a later instance of the same reservation, has a later
  line.
\<close>

theorem flattening_preserves_order:
  assumes "environ w ''LOG_BUCKET'' = Some bucket"
    and "describe_instances w = Inr resp"
    and "flattened resp = Some recs"
    and "rs = get_or_empty (Reservations resp)"
    and "j < length rs"
    and "k < length (get_or_empty (Instances (rs ! j)))"
    and "ts = strftime ''%Y-%m-%dT%H-%M-%SZ'' (utcnow w 0)"
    and "key = ''logs/ec2_status_'' @ ts @ ''.txt''"
  shows "fst (lambda_handler event context w) =
           [DescribeInstances,
            PutObject bucket key
              (encode_utf8 (str_join [CHR 0x0A]
                 (map (\<lambda>r. ts @ '' - '' @ fst r @ '' - '' @ snd r) recs)))] \<and>
         length recs = sum_list (map (\<lambda>r. length (get_or_empty (Instances r))) rs) \<and>
         line_index rs j k < length recs \<and>
         instance_record (get_or_empty (Instances (rs ! j)) ! k) =
           Some (recs ! line_index rs j k) \<and>
         (\<forall>j' k'. j < j' \<or> (j = j' \<and> k < k') \<longrightarrow>
            line_index rs j k < line_index rs j' k')"
proof -
  let ?xss = "map (\<lambda>r. get_or_empty (Instances r)) rs"
  have d: "descriptors resp = concat ?xss"
    by (simp add: descriptors_def assms(4))
  have jx: "j < length ?xss" and kx: "k < length (?xss ! j)"
    using assms(5,6) by simp_all
  from nth_concat_index [OF jx kx]
  have lt: "line_index rs j k < length (descriptors resp)"
    and at: "descriptors resp ! line_index rs j k = get_or_empty (Instances (rs ! j)) ! k"
    using assms(5) by (simp_all add: d line_index_concat)
  from instance_records_nth [OF assms(3) [unfolded flattened_def]]
  have len: "length recs = length (descriptors resp)"
    and nth: "\<forall>i < length (descriptors resp). instance_record (descriptors resp ! i) = Some (recs ! i)"
    by simp_all
  have total: "length recs = sum_list (map (\<lambda>r. length (get_or_empty (Instances r))) rs)"
    by (simp add: len d length_concat comp_def)
  have rec: "instance_record (get_or_empty (Instances (rs ! j)) ! k) =
      Some (recs ! line_index rs j k)"
    using nth lt at by auto
  have "recs \<noteq> []"
    using lt len by auto
  then have rl: "report_lines ts recs = map (\<lambda>r. ts @ '' - '' @ fst r @ '' - '' @ snd r) recs"
    by (simp add: report_lines_def record_line_def)
  have calls: "fst (lambda_handler event context w) =
           [DescribeInstances,
            PutObject bucket key
              (encode_utf8 (str_join [CHR 0x0A]
                 (map (\<lambda>r. ts @ '' - '' @ fst r @ '' - '' @ snd r) recs)))]"
    using handler_records [OF assms(1) assms(2) assms(3) assms(7) assms(8) refl,
        of event "context"]
    by (simp add: rl)
  have mono: "\<forall>j' k'. j < j' \<or> (j = j' \<and> k < k') \<longrightarrow>
      line_index rs j k < line_index rs j' k'"
    using line_index_mono [OF assms(5) assms(6)] by blast
  from calls total lt len rec mono show ?thesis by simp
qed

text \<open>
  Three reservations, the middle one without instances: the second instance of the first
  reservation comes before the first instance of the third, which is line 2 (counting
  from 0).
\<close>

theorem flattening_preserves_order_witness:
  "fst (lambda_handler () () fleet_world) =
     [DescribeInstances,
      PutObject ''status-logs'' ''logs/ec2_status_2024-03-01T12-00-00Z.txt''
        (''2024-03-01T12-00-00Z - i-001 - running'' @ [CHR 0x0A] @
         ''2024-03-01T12-00-00Z - i-002 - stopped'' @ [CHR 0x0A] @
         ''2024-03-01T12-00-00Z - i-003 - pending'')] \<and>
   line_index (get_or_empty (Reservations three_reservations)) 0 1 <
     line_index (get_or_empty (Reservations three_reservations)) 2 0 \<and>
   line_index (get_or_empty (Reservations three_reservations)) 2 0 = 2"
proof -
  let ?rs = "[\<lparr>Instances = Some
            [\<lparr>InstanceId = Some ''i-001'', State = Some \<lparr>Name = Some ''running''\<rparr>\<rparr>,
             \<lparr>InstanceId = Some ''i-002'', State = Some \<lparr>Name = Some ''stopped''\<rparr>\<rparr>]\<rparr>,
         \<lparr>Instances = None\<rparr>,
         \<lparr>Instances = Some
            [\<lparr>InstanceId = Some ''i-003'', State = Some \<lparr>Name = Some ''pending''\<rparr>\<rparr>]\<rparr>]"
  have j: "0 < length ?rs" by simp
  have k: "1 < length (get_or_empty (Instances (?rs ! 0)))"
    by (simp add: get_or_empty_def)
  note t = flattening_preserves_order [OF fleet_environ fleet_describe fleet_flattened
      fleet_reservations j k fleet_captured refl, of "()" "()"]
  have calls: "fst (lambda_handler () () fleet_world) =
     [DescribeInstances,
      PutObject ''status-logs'' ''logs/ec2_status_2024-03-01T12-00-00Z.txt''
        (''2024-03-01T12-00-00Z - i-001 - running'' @ [CHR 0x0A] @
         ''2024-03-01T12-00-00Z - i-002 - stopped'' @ [CHR 0x0A] @
         ''2024-03-01T12-00-00Z - i-003 - pending'')]"
    using t [THEN conjunct1] by (simp add: encode_utf8_def)
  have "(0::nat) < 2 \<or> ((0::nat) = 2 \<and> (1::nat) < 0)" by simp
  with t [THEN conjunct2, THEN conjunct2, THEN conjunct2, THEN conjunct2]
  have lt: "line_index ?rs 0 1 < line_index ?rs 2 0" by blast
  have ix: "line_index ?rs 2 0 = 2"
    by (simp add: line_index_def get_or_empty_def)
  from calls lt ix show ?thesis
    unfolding fleet_reservations [symmetric] by (intro conjI)
qed

subsection \<open>Missing keys in the response\<close>

text \<open>
  C10. With the bucket configured and a response returned by the inventory call:
  \<^item> the handler behaves on the response exactly as on the response with every missing
    \<open>Reservations\<close> and \<open>Instances\<close> key filled in with the empty list;
  \<^item> without the \<open>Reservations\<close> key, or when no reservation has an \<open>Instances\<close> key, the
    sentinel line is written;
  \<^item> when some descriptor lacks \<open>InstanceId\<close>, \<open>State\<close> or \<open>Name\<close> under \<open>State\<close>, the
    handler raises \<open>KeyError\<close> for one of these three keys, and the inventory call is the
    only call it has issued: there is no write;
  \<^item> when no descriptor lacks a key, the handler issues its write and returns the count,
    unless \<open>put_object\<close> itself raises: no statement of the handler raises.
\<close>

theorem missing_optional_keys:
  assumes "environ w ''LOG_BUCKET'' = Some bucket"
    and "describe_instances w = Inr resp"
    and "ts = strftime ''%Y-%m-%dT%H-%M-%SZ'' (utcnow w 0)"
    and "key = ''logs/ec2_status_'' @ ts @ ''.txt''"
  shows "lambda_handler event context (w\<lparr>describe_instances := Inr (fill_defaults resp)\<rparr>) =
           lambda_handler event context w \<and>
         (Reservations resp = None \<longrightarrow>
            fst (lambda_handler event context w) =
              [DescribeInstances, PutObject bucket key (ts @ '' - no instances found'')]) \<and>
         ((\<forall>r \<in> set (get_or_empty (Reservations resp)). Instances r = None) \<longrightarrow>
            fst (lambda_handler event context w) =
              [DescribeInstances, PutObject bucket key (ts @ '' - no instances found'')]) \<and>
         ((\<exists>inst \<in> set (descriptors resp). lacks_key inst) \<longrightarrow>
            (\<exists>e \<in> missing_keys. lambda_handler event context w = ([DescribeInstances], Inl e))) \<and>
         ((\<forall>inst \<in> set (descriptors resp). \<not> lacks_key inst) \<longrightarrow>
            (\<exists>recs body.
               flattened resp = Some recs \<and> length recs = length (descriptors resp) \<and>
               body = encode_utf8 (str_join [CHR 0x0A] (report_lines ts recs)) \<and>
               lambda_handler event context w =
                 ([DescribeInstances, PutObject bucket key body],
                  (case put_object w bucket key body of
                     Some e \<Rightarrow> Inl e
                   | None \<Rightarrow> Inr [(''count'', length (report_lines ts recs))]))))"
proof (intro conjI impI)
  show "lambda_handler event context (w\<lparr>describe_instances := Inr (fill_defaults resp)\<rparr>) =
          lambda_handler event context w"
    by (rule handler_descriptors [OF assms(2) descriptors_fill_defaults])
next
  have sentinel: "fst (lambda_handler event context w) =
      [DescribeInstances, PutObject bucket key (ts @ '' - no instances found'')]"
    if "descriptors resp = []"
  proof -
    have "flattened resp = Some []"
      using that by (simp add: flattened_def)
    from handler_records [OF assms(1) assms(2) this assms(3) assms(4) refl, of event "context"]
    show ?thesis by (simp add: report_lines_def encode_utf8_def)
  qed
  {
    assume "Reservations resp = None"
    then have "descriptors resp = []"
      by (simp add: descriptors_def get_or_empty_def)
    then show "fst (lambda_handler event context w) =
      [DescribeInstances, PutObject bucket key (ts @ '' - no instances found'')]"
      by (rule sentinel)
  }
  {
    assume "\<forall>r \<in> set (get_or_empty (Reservations resp)). Instances r = None"
    then have "descriptors resp = []"
      by (rule no_instances_descriptors)
    then show "fst (lambda_handler event context w) =
      [DescribeInstances, PutObject bucket key (ts @ '' - no instances found'')]"
      by (rule sentinel)
  }
next
  assume "\<exists>inst \<in> set (descriptors resp). lacks_key inst"
  then have "flattened resp = None"
    by (simp add: flattened_def instance_records_None_iff)
  from handler_key_error [OF assms(1) assms(2) this]
  show "\<exists>e \<in> missing_keys. lambda_handler event context w = ([DescribeInstances], Inl e)" .
next
  assume "\<forall>inst \<in> set (descriptors resp). \<not> lacks_key inst"
  then have "flattened resp \<noteq> None"
    by (simp add: flattened_def instance_records_None_iff)
  then obtain recs where f: "flattened resp = Some recs"
    by blast
  have len: "length recs = length (descriptors resp)"
    using instance_records_nth [OF f [unfolded flattened_def]] by simp
  from handler_records [OF assms(1) assms(2) f assms(3) assms(4) refl, of event "context"] f len
  show "\<exists>recs body.
          flattened resp = Some recs \<and> length recs = length (descriptors resp) \<and>
          body = encode_utf8 (str_join [CHR 0x0A] (report_lines ts recs)) \<and>
          lambda_handler event context w =
            ([DescribeInstances, PutObject bucket key body],
             (case put_object w bucket key body of
                Some e \<Rightarrow> Inl e
              | None \<Rightarrow> Inr [(''count'', length (report_lines ts recs))]))"
    by blast
qed

text \<open>
  A response without \<open>Reservations\<close>; the three reservations, one of them without
  \<open>Instances\<close>; and a response whose second instance has no \<open>State\<close>.
\<close>

theorem missing_optional_keys_witness:
  "fst (lambda_handler () () (example_world\<lparr>describe_instances := Inr no_reservations_key\<rparr>)) =
     [DescribeInstances,
      PutObject ''status-logs'' ''logs/ec2_status_2024-03-01T12-00-00Z.txt''
        ''2024-03-01T12-00-00Z - no instances found''] \<and>
   lambda_handler () () (fleet_world\<lparr>describe_instances := Inr (fill_defaults three_reservations)\<rparr>) =
     lambda_handler () () fleet_world \<and>
   (\<exists>e. e \<in> missing_keys \<and>
      lambda_handler () () (example_world\<lparr>describe_instances := Inr half_described\<rparr>) =
        ([DescribeInstances], Inl e))"
proof -
  note a = example_with_response [of no_reservations_key]
  note ta = missing_optional_keys [OF a [THEN conjunct1] a [THEN conjunct2, THEN conjunct1]
      a [THEN conjunct2, THEN conjunct2] refl, of "()" "()"]
  have "Reservations no_reservations_key = None"
    by (simp add: no_reservations_key_def)
  from ta [THEN conjunct2, THEN conjunct1, THEN mp, OF this]
  have 1: "fst (lambda_handler () () (example_world\<lparr>describe_instances := Inr no_reservations_key\<rparr>)) =
     [DescribeInstances,
      PutObject ''status-logs'' ''logs/ec2_status_2024-03-01T12-00-00Z.txt''
        ''2024-03-01T12-00-00Z - no instances found'']"
    by simp
  note tb = missing_optional_keys [OF fleet_environ fleet_describe fleet_captured refl,
      of "()" "()"]
  note 2 = tb [THEN conjunct1]
  note c = example_with_response [of half_described]
  note tc = missing_optional_keys [OF c [THEN conjunct1] c [THEN conjunct2, THEN conjunct1]
      c [THEN conjunct2, THEN conjunct2] refl, of "()" "()"]
  have "\<exists>inst \<in> set (descriptors half_described). lacks_key inst"
    by (simp add: descriptors_def half_described_def get_or_empty_def lacks_key_def)
  from tc [THEN conjunct2, THEN conjunct2, THEN conjunct2, THEN conjunct1, THEN mp, OF this]
  have 3: "\<exists>e. e \<in> missing_keys \<and>
      lambda_handler () () (example_world\<lparr>describe_instances := Inr half_described\<rparr>) =
        ([DescribeInstances], Inl e)"
    unfolding Bex_def .
  from 1 2 3 show ?thesis by (intro conjI)
qed

end
